theory Spec2Isabelle
  imports Complex_Main "HOL-Library.Multiset"
begin

section \<open>Similarity scorer (admin routes, \<open>calculateSimilarity\<close>)\<close>

text \<open>
  A JavaScript string is a sequence of UTF-16 code units. The scorer only compares units
  and slices of them, so the model is polymorphic in the unit type: a string is an
  \<open>'a list\<close>, and the concrete examples below use \<open>string\<close>.

  \<open>substring s i j\<close> is \<open>s.substring(i, j)\<close> for \<open>i \<le> j\<close>, the only way the scorer
  calls it; both ends are clamped to the length of the string, as \<open>take\<close> and \<open>drop\<close> do.
\<close>

definition substring :: "'a list \<Rightarrow> nat \<Rightarrow> nat \<Rightarrow> 'a list" where
  "substring s i j = take (j - i) (drop i s)"

text \<open>
  The two loops \<open>for (let i = 0; i < str.length - 1; i++) pairs.push(str.substring(i, i + 2))\<close>.
  For the empty string \<open>str.length - 1\<close> is \<open>-1\<close> in the source and \<open>0\<close> here; the loop
  body runs in neither.
\<close>

definition char_pairs :: "'a list \<Rightarrow> 'a list list" where
  "char_pairs str = map (\<lambda>i. substring str i (i + 2)) [0..<length str - 1]"

text \<open>
  The inner loop over \<open>j\<close>: scan \<open>pairs2\<close> from the left for the first element equal to
  \<open>p\<close>; when found, \<open>pairs2.splice(j, 1)\<close> removes it and the loop breaks. The result is
  \<open>Some\<close> of the spliced array when a match was found and \<open>None\<close> when the scan ended
  without one (the array is then unchanged).
\<close>

fun find_and_splice :: "'a \<Rightarrow> 'a list \<Rightarrow> 'a list option" where
  "find_and_splice p [] = None"
| "find_and_splice p (q # qs) =
     (if p = q then Some qs
      else (case find_and_splice p qs of None \<Rightarrow> None | Some qs' \<Rightarrow> Some (q # qs')))"

text \<open>
  The outer loop over \<open>i\<close>, with the counter \<open>intersection\<close> and the array \<open>pairs2\<close>
  (mutated in place in the source) passed as state and returned.
\<close>

fun intersect_loop :: "'a list \<Rightarrow> 'a list \<Rightarrow> nat \<Rightarrow> nat \<times> 'a list" where
  "intersect_loop [] pairs2 intersection = (intersection, pairs2)"
| "intersect_loop (p # ps) pairs2 intersection =
     (case find_and_splice p pairs2 of
        Some pairs2' \<Rightarrow> intersect_loop ps pairs2' (Suc intersection)
      | None \<Rightarrow> intersect_loop ps pairs2 intersection)"

text \<open>
  \<open>calculateSimilarity\<close>. The counts are exact integers; the final JavaScript division of
  two such integers is modelled by the exact quotient in \<open>rat\<close>. The denominator reads
  \<open>pairs2.length\<close> after the loop, that is, the length of the array the loop has spliced.
\<close>

definition calculateSimilarity :: "'a list \<Rightarrow> 'a list \<Rightarrow> rat" where
  "calculateSimilarity str1 str2 =
     (if str1 = str2 then 1
      else if length str1 < 2 \<or> length str2 < 2 then 0
      else
        let pairs1 = char_pairs str1;
            pairs2 = char_pairs str2;
            (intersection, pairs2') = intersect_loop pairs1 pairs2 0
        in of_nat (2 * intersection) / of_nat (length pairs1 + length pairs2'))"

section \<open>Entitlement engine (\<open>routes/books.js\<close>)\<close>

text \<open>
  An ObjectId is an opaque identifier compared with \<open>equals\<close>; a \<open>Date\<close> is its number of
  milliseconds since the epoch, as JavaScript compares and subtracts dates. A field that
  may be unset (\<open>undefined\<close>) is an \<open>option\<close>.
\<close>

type_synonym objectId = nat
type_synonym date = int

text \<open>
  The fields of the \<open>User\<close> schema that the engine reads and writes. Mongoose gives the
  two array fields the default \<open>[]\<close>, so they are never unset.
\<close>

record user =
  subscription_plan :: string
  subscription_status :: string
  subscription_start :: "date option"
  subscription_end :: "date option"
  period_started_at :: "date option"
  read_books_in_period :: "objectId list"
  downloaded_books_in_period :: "objectId list"

type_synonym users = "objectId \<rightharpoonup> user"

text \<open>The constant \<open>30 * 24 * 60 * 60 * 1000\<close>: thirty days in milliseconds.\<close>

definition thirty_days_ms :: int where
  "thirty_days_ms = 30 * 24 * 60 * 60 * 1000"

text \<open>
  \<open>user.period_started_at || user.subscription_start\<close>: a \<open>Date\<close> object is always truthy,
  so the right operand is taken exactly when the left one is unset.
\<close>

definition period_start :: "user \<Rightarrow> date option" where
  "period_start user =
     (case period_started_at user of Some p \<Rightarrow> Some p | None \<Rightarrow> subscription_start user)"

text \<open>
  \<open>resetPeriodIfNeeded\<close>. The source reads the clock itself (\<open>new Date()\<close>); the reading
  is the parameter \<open>now\<close>. The source mutates the loaded document; the model returns it.
\<close>

definition resetPeriodIfNeeded :: "date \<Rightarrow> user \<Rightarrow> user" where
  "resetPeriodIfNeeded now user =
     (let start = period_start user in
      if (case start of None \<Rightarrow> True | Some s \<Rightarrow> now - s > thirty_days_ms)
      then user\<lparr>period_started_at := Some now,
                read_books_in_period := [],
                downloaded_books_in_period := []\<rparr>
      else user)"

record limits =
  maxReads :: nat
  maxDownloads :: nat

definition getPlanLimits :: "string \<Rightarrow> limits" where
  "getPlanLimits plan =
     (if plan = ''premium'' then \<lparr>maxReads = 100, maxDownloads = 25\<rparr>
      else if plan = ''basic'' then \<lparr>maxReads = 10, maxDownloads = 5\<rparr>
      else \<lparr>maxReads = 0, maxDownloads = 0\<rparr>)"

text \<open>
  The value \<open>{ ok: true }\<close> or \<open>{ ok: false, message: ... }\<close> that the gate returns.
\<close>

datatype gate = Ok | Fail string

text \<open>
  \<open>ensureActiveAndWithinLimits\<close>. The collection of users is passed in and returned:
  only \<open>user.save()\<close> writes the loaded (and locally mutated) document back to it. The
  function reads the clock twice: \<open>now_check\<close> is the reading in the expiry test and
  \<open>now_reset\<close> the one inside \<open>resetPeriodIfNeeded\<close>. Storage is assumed available, so the
  two awaited calls do not throw.
\<close>

definition ensureActiveAndWithinLimits ::
  "users \<Rightarrow> date \<Rightarrow> date \<Rightarrow> objectId \<Rightarrow> objectId \<Rightarrow> string \<Rightarrow> gate \<times> users" where
  "ensureActiveAndWithinLimits db now_check now_reset userId bookId type =
     (case db userId of
        None \<Rightarrow> (Fail ''User not found'', db)
      | Some loaded \<Rightarrow>
          if subscription_status loaded \<noteq> ''active'' \<or>
             (case subscription_end loaded of None \<Rightarrow> True | Some e \<Rightarrow> e < now_check)
          then (Fail ''Subscription inactive or expired. Please contact admin to renew.'', db)
          else
            let user = resetPeriodIfNeeded now_reset loaded;
                limits = getPlanLimits (subscription_plan user)
            in
              if maxReads limits = 0 \<and> maxDownloads limits = 0
              then (Fail ''No active plan. Please subscribe.'', db)
              else if type = ''read'' then
                (let already = (bookId \<in> set (read_books_in_period user)) in
                 if \<not> already \<and> length (read_books_in_period user) \<ge> maxReads limits
                 then (Fail ''Read limit reached for this period.'', db)
                 else
                   (Ok, db(userId \<mapsto>
                      (if \<not> already
                       then user\<lparr>read_books_in_period := read_books_in_period user @ [bookId]\<rparr>
                       else user))))
              else if type = ''download'' then
                (let already = (bookId \<in> set (downloaded_books_in_period user)) in
                 if \<not> already \<and> length (downloaded_books_in_period user) \<ge> maxDownloads limits
                 then (Fail ''Download limit reached for this period.'', db)
                 else
                   (Ok, db(userId \<mapsto>
                      (if \<not> already
                       then user\<lparr>downloaded_books_in_period :=
                                   downloaded_books_in_period user @ [bookId]\<rparr>
                       else user))))
              else (Ok, db(userId \<mapsto> user)))"

section \<open>Subscription request queue (\<open>routes/user.js\<close> and the admin routes)\<close>

text \<open>
  The \<open>SubscriptionRequest\<close> schema; \<open>req_id\<close> is the document's \<open>_id\<close>, and the other
  fields carry the prefix \<open>req_\<close> before the schema's names \<open>user\<close>, \<open>plan\<close>, \<open>status\<close>,
  \<open>processed_at\<close> and \<open>note\<close>. The collection is the list of its documents in insertion
  order.
\<close>

record subscriptionRequest =
  req_id :: objectId
  req_user :: objectId
  req_plan :: string
  req_status :: string
  req_processed_at :: "date option"
  req_note :: string

type_synonym requests = "subscriptionRequest list"

text \<open>
  A response is the HTTP status with its JSON body: \<open>{ error: ... }\<close>, \<open>{ ok: true }\<close>,
  \<open>{ ok: true, pending: true, id: ... }\<close> or \<open>{ ok: true, id: ... }\<close>.
\<close>

datatype json = JsonError string | JsonOk | JsonOkPendingId objectId | JsonOkId objectId

type_synonym response = "nat \<times> json"

text \<open>
  The storage operations the handlers call. \<open>findById\<close> and \<open>findOne\<close> return the first
  matching document; \<open>findOnePending\<close> is \<open>findOne\<close> with the query
  \<open>{ user, plan, status: 'pending' }\<close>. \<open>save_request\<close> is \<open>reqDoc.save()\<close>: it replaces
  the stored document of the same \<open>_id\<close>.
\<close>

definition findById :: "requests \<Rightarrow> objectId \<Rightarrow> subscriptionRequest option" where
  "findById reqs requestId = find (\<lambda>r. req_id r = requestId) reqs"

definition findOnePending ::
  "requests \<Rightarrow> objectId \<Rightarrow> string \<Rightarrow> subscriptionRequest option" where
  "findOnePending reqs userId plan =
     find (\<lambda>r. req_user r = userId \<and> req_plan r = plan \<and> req_status r = ''pending'') reqs"

definition save_request :: "requests \<Rightarrow> subscriptionRequest \<Rightarrow> requests" where
  "save_request reqs doc = map (\<lambda>r. if req_id r = req_id doc then doc else r) reqs"

text \<open>
  \<open>SubscriptionRequest.create\<close> with the schema defaults (\<open>status = 'pending'\<close>, no
  \<open>processed_at\<close>). The \<open>_id\<close> that the driver generates is the parameter \<open>newId\<close>. The insert
  is refused (a duplicate-key error, \<open>None\<close> here) when the \<open>_id\<close> is taken or when the
  unique partial index on \<open>(user, plan, status)\<close> for \<open>status = 'pending'\<close> would be violated.
\<close>

definition create_request ::
  "requests \<Rightarrow> objectId \<Rightarrow> objectId \<Rightarrow> string \<Rightarrow> string \<Rightarrow>
   (subscriptionRequest \<times> requests) option" where
  "create_request reqs newId userId plan note =
     (let doc = \<lparr>req_id = newId, req_user = userId, req_plan = plan, req_status = ''pending'',
                 req_processed_at = None, req_note = note\<rparr>
      in if findById reqs newId \<noteq> None \<or> findOnePending reqs userId plan \<noteq> None
         then None
         else Some (doc, reqs @ [doc]))"

text \<open>
  The handler of \<open>POST /subscribe-request\<close>. \<open>userId\<close> is \<open>req.session.user.id\<close> (the
  \<open>requireUser\<close> middleware has passed), \<open>plan\<close> and \<open>note\<close> are the two fields of the
  body, \<open>None\<close> when absent. The validation accepts only the plans \<open>'basic'\<close> and
  \<open>'premium'\<close>. An error thrown by \<open>create\<close> is caught and answered with status 500.
\<close>

definition subscribe_request ::
  "requests \<Rightarrow> objectId \<Rightarrow> objectId \<Rightarrow> string option \<Rightarrow> string option \<Rightarrow>
   response \<times> requests" where
  "subscribe_request reqs newId userId plan note =
     (case plan of
        None \<Rightarrow> ((400, JsonError ''invalid input''), reqs)
      | Some p \<Rightarrow>
          if p \<noteq> ''basic'' \<and> p \<noteq> ''premium'' then ((400, JsonError ''invalid input''), reqs)
          else
            (case findOnePending reqs userId p of
               Some exists \<Rightarrow> ((200, JsonOkPendingId (req_id exists)), reqs)
             | None \<Rightarrow>
                 (case create_request reqs newId userId p
                         (case note of None \<Rightarrow> '''' | Some n \<Rightarrow> n) of
                    None \<Rightarrow> ((500, JsonError ''failed''), reqs)
                  | Some (doc, reqs') \<Rightarrow> ((201, JsonOkId (req_id doc)), reqs'))))"

text \<open>
  The handler of \<open>POST /requests/:id/approve\<close>, after the \<open>requireAuth\<close> and rate-limit
  middleware have passed. It reads the clock twice: \<open>now\<close> dates the grant and
  \<open>now_processed\<close> is the later \<open>new Date()\<close> stored in \<open>processed_at\<close>. The parameter
  \<open>requestId\<close> is \<open>req.params.id\<close>, a well-formed ObjectId, and \<open>end_date\<close> is the
  source's \<open>end\<close>. Storage is assumed available, so the \<open>catch\<close> branch (status 500) is
  not taken.
\<close>

definition approve ::
  "requests \<Rightarrow> users \<Rightarrow> date \<Rightarrow> date \<Rightarrow> objectId \<Rightarrow> response \<times> requests \<times> users" where
  "approve reqs db now now_processed requestId =
     (case findById reqs requestId of
        None \<Rightarrow> ((404, JsonError ''not found''), reqs, db)
      | Some reqDoc \<Rightarrow>
          if req_status reqDoc = ''processed''
          then ((400, JsonError ''already processed''), reqs, db)
          else
            (case db (req_user reqDoc) of
               None \<Rightarrow> ((404, JsonError ''user not found''), reqs, db)
             | Some user \<Rightarrow>
                 let end_date = now + thirty_days_ms;
                     db' = db(req_user reqDoc \<mapsto>
                             user\<lparr>subscription_plan := req_plan reqDoc,
                                  subscription_status := ''active'',
                                  subscription_start := Some now,
                                  subscription_end := Some end_date,
                                  period_started_at := Some now,
                                  read_books_in_period := [],
                                  downloaded_books_in_period := []\<rparr>);
                     reqs' = save_request reqs
                               (reqDoc\<lparr>req_status := ''processed'',
                                       req_processed_at := Some now_processed\<rparr>)
                 in ((200, JsonOk), reqs', db')))"

text \<open>The handler of \<open>POST /requests/:id/mark-processed\<close>.\<close>

definition mark_processed :: "requests \<Rightarrow> date \<Rightarrow> objectId \<Rightarrow> response \<times> requests" where
  "mark_processed reqs now requestId =
     (case findById reqs requestId of
        None \<Rightarrow> ((404, JsonError ''not found''), reqs)
      | Some reqDoc \<Rightarrow>
          if req_status reqDoc = ''processed'' then ((200, JsonOk), reqs)
          else ((200, JsonOk),
                save_request reqs
                  (reqDoc\<lparr>req_status := ''processed'', req_processed_at := Some now\<rparr>)))"

section \<open>Vocabulary of the statements\<close>

text \<open>
  The number of matches the loop counts is the size of the multiset intersection of the
  two pair sequences.
\<close>

definition shared_pairs :: "'a list \<Rightarrow> 'a list \<Rightarrow> nat" where
  "shared_pairs a b = size (mset (char_pairs a) \<inter># mset (char_pairs b))"

text \<open>
  The contract \<open>shouldReset(periodStart, now)\<close> in the words of the specification:
  \<open>periodStart\<close> is unset, or \<open>now - periodStart\<close> is more than 30 days.
\<close>

definition shouldReset :: "date option \<Rightarrow> date \<Rightarrow> bool" where
  "shouldReset periodStart now =
     (case periodStart of None \<Rightarrow> True | Some p \<Rightarrow> now - p > thirty_days_ms)"

text \<open>
  Successive calls of the gate by one user for one kind of action, each with its two
  clock readings and the requested content, on the collection the previous call left.
\<close>

record call =
  check_time :: date
  reset_time :: date
  content :: objectId

fun consume_all :: "users \<Rightarrow> objectId \<Rightarrow> string \<Rightarrow> call list \<Rightarrow> gate list \<times> users" where
  "consume_all db userId type [] = ([], db)"
| "consume_all db userId type (c # cs) =
     (case ensureActiveAndWithinLimits db (check_time c) (reset_time c) userId (content c) type of
        (g, db') \<Rightarrow>
          (case consume_all db' userId type cs of (gs, db'') \<Rightarrow> (g # gs, db'')))"

text \<open>The pending requests of a user for a plan.\<close>

definition pending_for :: "requests \<Rightarrow> objectId \<Rightarrow> string \<Rightarrow> requests" where
  "pending_for reqs userId plan =
     filter (\<lambda>r. req_user r = userId \<and> req_plan r = plan \<and> req_status r = ''pending'') reqs"

text \<open>
  The three handlers above are the only code that writes the request collection. A
  history of the system, as far as that collection is concerned, is a list of their
  calls, run from the empty collection.
\<close>

datatype action =
    Submit objectId objectId "string option" "string option"
  | Approve date date objectId
  | MarkProcessed date objectId

fun step :: "requests \<times> users \<Rightarrow> action \<Rightarrow> requests \<times> users" where
  "step (reqs, db) (Submit newId userId plan note) =
     (snd (subscribe_request reqs newId userId plan note), db)"
| "step (reqs, db) (Approve now now_processed requestId) =
     snd (approve reqs db now now_processed requestId)"
| "step (reqs, db) (MarkProcessed now requestId) =
     (snd (mark_processed reqs now requestId), db)"

definition run :: "users \<Rightarrow> action list \<Rightarrow> requests \<times> users" where
  "run db actions = foldl step ([], db) actions"

section \<open>Properties of the similarity scorer\<close>

lemma length_char_pairs: "length (char_pairs s) = length s - 1"
  by (simp add: char_pairs_def)

lemma find_and_splice_remove1:
  "find_and_splice p qs = (if p \<in> set qs then Some (remove1 p qs) else None)"
  by (induction qs) auto

lemma intersect_loop_mset:
  "intersect_loop ps qs n = (m, qs') \<Longrightarrow>
     m = n + size (mset ps \<inter># mset qs) \<and> mset qs' = mset qs - mset ps"
proof (induction ps arbitrary: qs n)
  case Nil
  then show ?case by simp
next
  case (Cons p ps)
  show ?case
  proof (cases "p \<in> set qs")
    case True
    with Cons.prems have "intersect_loop ps (remove1 p qs) (Suc n) = (m, qs')"
      by (simp add: find_and_splice_remove1)
    from Cons.IH [OF this] True show ?thesis
      by (simp add: inter_add_left2)
  next
    case False
    with Cons.prems have "intersect_loop ps qs n = (m, qs')"
      by (simp add: find_and_splice_remove1)
    from Cons.IH [OF this] False show ?thesis
      by (simp add: inter_add_left1)
  qed
qed

lemma size_diff_inter_mset: "size (Q - P) = size Q - size (P \<inter># Q)"
proof -
  have "Q - P = Q - (P \<inter># Q)"
    by (simp add: multiset_eq_iff)
  then have "size (Q - P) = size (Q - (P \<inter># Q))"
    by (rule arg_cong)
  also have "\<dots> = size Q - size (P \<inter># Q)"
    by (rule size_Diff_submset) simp
  finally show ?thesis .
qed

lemma intersect_loop_result:
  assumes r: "intersect_loop ps qs 0 = (m, qs')"
  shows "m = size (mset ps \<inter># mset qs) \<and>
         length qs' = length qs - size (mset ps \<inter># mset qs)"
proof -
  from intersect_loop_mset [OF r]
  have m: "m = size (mset ps \<inter># mset qs)" and q: "mset qs' = mset qs - mset ps"
    by simp_all
  have "length qs' = size (mset qs')" by simp
  also have "\<dots> = length qs - size (mset ps \<inter># mset qs)"
    by (simp add: q size_diff_inter_mset)
  finally show ?thesis using m by simp
qed

lemma shared_pairs_commute: "shared_pairs b a = shared_pairs a b"
  unfolding shared_pairs_def by (rule arg_cong [OF multiset_inter_commute])

lemma shared_pairs_le:
  "shared_pairs a b \<le> length (char_pairs a)" "shared_pairs a b \<le> length (char_pairs b)"
proof -
  have "size (mset (char_pairs a) \<inter># mset (char_pairs b)) \<le> size (mset (char_pairs a))"
    by (rule size_mset_mono) simp
  then show "shared_pairs a b \<le> length (char_pairs a)"
    by (simp add: shared_pairs_def)
  have "size (mset (char_pairs a) \<inter># mset (char_pairs b)) \<le> size (mset (char_pairs b))"
    by (rule size_mset_mono) simp
  then show "shared_pairs a b \<le> length (char_pairs b)"
    by (simp add: shared_pairs_def)
qed

text \<open>
  What the code computes on two different strings of two or more units: twice the number
  of shared pairs, over the number of pairs of the first string plus the number of pairs
  of the second string that found no match.
\<close>

lemma calculateSimilarity_formula:
  assumes "str1 \<noteq> str2" "2 \<le> length str1" "2 \<le> length str2"
  shows "calculateSimilarity str1 str2 =
     of_nat (2 * shared_pairs str1 str2) /
     of_nat (length (char_pairs str1) + (length (char_pairs str2) - shared_pairs str1 str2))"
proof -
  obtain m qs' where r: "intersect_loop (char_pairs str1) (char_pairs str2) 0 = (m, qs')"
    by (cases "intersect_loop (char_pairs str1) (char_pairs str2) 0")
  from intersect_loop_result [OF r] assms r show ?thesis
    unfolding calculateSimilarity_def shared_pairs_def Let_def by simp
qed

text \<open>
  C1. The claim is that for two different strings of length at least 2 the score is
  \<open>2 * I / (|bigrams(a)| + |bigrams(b)|)\<close> with \<open>|bigrams(s)| = len(s) - 1\<close>, hence in
  \<open>[0,1]\<close>, and about \<open>0.25\<close> on "night" and "nacht". The code divides by the length of
  the spliced second array instead: on "night" and "nacht" (one shared pair out of four
  and four) it returns \<open>2/7\<close>, not \<open>2/8\<close>, and on "aaba" and "abaa" (the same three
  pairs in another order) it returns \<open>2\<close>, outside \<open>[0,1]\<close>.
\<close>

theorem calculateSimilarity_night_nacht:
  "calculateSimilarity ''night'' ''nacht'' = 2 / 7 \<and>
   calculateSimilarity ''aaba'' ''abaa'' = 2"
  by (simp add: calculateSimilarity_def char_pairs_def substring_def upt_rec)

text \<open>
  C8. The scorer is symmetric: for all strings \<open>a\<close> and \<open>b\<close>,
  \<open>calculateSimilarity a b = calculateSimilarity b a\<close>. Numerator and denominator are
  the same two integers in both orders, so the equality also holds for the floating-point
  quotient of the source.
\<close>

theorem calculateSimilarity_symmetric:
  "calculateSimilarity a b = calculateSimilarity b a"
proof (cases "a = b \<or> length a < 2 \<or> length b < 2")
  case True
  then show ?thesis by (auto simp: calculateSimilarity_def)
next
  case False
  then have ab: "a \<noteq> b" "2 \<le> length a" "2 \<le> length b" by auto
  let ?I = "shared_pairs a b"
  have "?I \<le> length (char_pairs a)" "?I \<le> length (char_pairs b)"
    by (rule shared_pairs_le)+
  then have d: "length (char_pairs b) + (length (char_pairs a) - ?I) =
                length (char_pairs a) + (length (char_pairs b) - ?I)"
    by arith
  have "calculateSimilarity b a =
          of_nat (2 * shared_pairs b a) /
          of_nat (length (char_pairs b) + (length (char_pairs a) - shared_pairs b a))"
    by (rule calculateSimilarity_formula) (use ab in auto)
  also have "\<dots> = of_nat (2 * ?I) /
                   of_nat (length (char_pairs a) + (length (char_pairs b) - ?I))"
    by (simp only: shared_pairs_commute [of b a] d)
  also have "\<dots> = calculateSimilarity a b"
    by (rule calculateSimilarity_formula [symmetric]) (use ab in auto)
  finally show ?thesis by (rule sym)
qed

theorem calculateSimilarity_symmetric_witness:
  "calculateSimilarity ''hello'' ''hallo'' = 2 / 3 \<and>
   calculateSimilarity ''hallo'' ''hello'' = 2 / 3"
proof -
  have "calculateSimilarity ''hello'' ''hallo'' = 2 / 3"
    by (simp add: calculateSimilarity_def char_pairs_def substring_def upt_rec)
  with calculateSimilarity_symmetric [of "''hallo''" "''hello''"] show ?thesis by simp
qed

text \<open>
  C9, as stated: whenever one of the two strings is shorter than 2, the score is 0, also
  when the two short strings are identical. The test \<open>str1 === str2\<close> comes first in the
  code, so two identical short strings score 1.
\<close>

theorem calculateSimilarity_short_identical_counterexample:
  "(length ''a'' < 2 \<or> length ''a'' < 2) \<and> calculateSimilarity ''a'' ''a'' \<noteq> 0"
  by (simp add: calculateSimilarity_def)

text \<open>
  C9, amended: two different strings of which at least one is shorter than 2 score 0,
  and a string scores 1 against itself whatever its length.
\<close>

theorem calculateSimilarity_short:
  "(str1 \<noteq> str2 \<and> (length str1 < 2 \<or> length str2 < 2) \<longrightarrow>
      calculateSimilarity str1 str2 = 0) \<and>
   calculateSimilarity str1 str1 = 1"
  by (simp add: calculateSimilarity_def)

theorem calculateSimilarity_short_witness:
  "''a'' \<noteq> ''hello'' \<and> (length ''a'' < 2 \<or> length ''hello'' < 2) \<and>
   calculateSimilarity ''a'' ''hello'' = 0 \<and> calculateSimilarity ''a'' ''a'' = 1"
  using calculateSimilarity_short [of "''a''" "''hello''"] by simp

section \<open>Properties of the period manager\<close>

text \<open>
  C4, as stated: the reset is performed exactly when \<open>period_started_at\<close> is unset or more
  than 30 days before now. For a user whose \<open>period_started_at\<close> is unset and whose
  \<open>subscription_start\<close> is recent, the stated condition holds and the code resets nothing:
  it falls back on \<open>subscription_start\<close>.
\<close>

theorem resetPeriodIfNeeded_unset_counterexample:
  "shouldReset (period_started_at
     \<lparr>subscription_plan = ''basic'', subscription_status = ''active'',
      subscription_start = Some 0, subscription_end = Some 10, period_started_at = None,
      read_books_in_period = [1], downloaded_books_in_period = [2]\<rparr>) 5 \<and>
   resetPeriodIfNeeded 5
     \<lparr>subscription_plan = ''basic'', subscription_status = ''active'',
      subscription_start = Some 0, subscription_end = Some 10, period_started_at = None,
      read_books_in_period = [1], downloaded_books_in_period = [2]\<rparr> =
     \<lparr>subscription_plan = ''basic'', subscription_status = ''active'',
      subscription_start = Some 0, subscription_end = Some 10, period_started_at = None,
      read_books_in_period = [1], downloaded_books_in_period = [2]\<rparr>"
  by (simp add: shouldReset_def resetPeriodIfNeeded_def period_start_def thirty_days_ms_def)

text \<open>
  C4, amended: the reset is performed exactly when the start of the period, which is
  \<open>period_started_at\<close> or, when that is unset, \<open>subscription_start\<close>, is unset or more than
  30 days before now. When performed, it empties both usage lists and sets
  \<open>period_started_at\<close> to now; a second call at the same time changes nothing more.
\<close>

theorem resetPeriodIfNeeded_spec:
  "resetPeriodIfNeeded now u =
     (if shouldReset (case period_started_at u of Some p \<Rightarrow> Some p
                      | None \<Rightarrow> subscription_start u) now
      then u\<lparr>period_started_at := Some now,
             read_books_in_period := [],
             downloaded_books_in_period := []\<rparr>
      else u) \<and>
   resetPeriodIfNeeded now (resetPeriodIfNeeded now u) = resetPeriodIfNeeded now u"
  by (simp add: resetPeriodIfNeeded_def period_start_def shouldReset_def thirty_days_ms_def
      Let_def split: option.splits)

theorem resetPeriodIfNeeded_spec_witness:
  "resetPeriodIfNeeded 3000000000
     \<lparr>subscription_plan = ''basic'', subscription_status = ''active'',
      subscription_start = Some 0, subscription_end = Some 5000000000, period_started_at = Some 0,
      read_books_in_period = [7], downloaded_books_in_period = [1, 2, 3, 4, 5]\<rparr> =
     \<lparr>subscription_plan = ''basic'', subscription_status = ''active'',
      subscription_start = Some 0, subscription_end = Some 5000000000, period_started_at = Some 3000000000,
      read_books_in_period = [], downloaded_books_in_period = []\<rparr> \<and>
   resetPeriodIfNeeded 3000000000
     \<lparr>subscription_plan = ''basic'', subscription_status = ''active'',
      subscription_start = Some 0, subscription_end = Some 5000000000, period_started_at = Some 3000000000,
      read_books_in_period = [], downloaded_books_in_period = []\<rparr> =
     \<lparr>subscription_plan = ''basic'', subscription_status = ''active'',
      subscription_start = Some 0, subscription_end = Some 5000000000, period_started_at = Some 3000000000,
      read_books_in_period = [], downloaded_books_in_period = []\<rparr>"
  using resetPeriodIfNeeded_spec [of 3000000000
     "\<lparr>subscription_plan = ''basic'', subscription_status = ''active'',
      subscription_start = Some 0, subscription_end = Some 5000000000, period_started_at = Some 0,
      read_books_in_period = [7], downloaded_books_in_period = [1, 2, 3, 4, 5]\<rparr>"]
  by (simp add: shouldReset_def resetPeriodIfNeeded_def period_start_def thirty_days_ms_def)

section \<open>Properties of the entitlement gate\<close>

lemma period_start_downloaded:
  "period_start (u\<lparr>downloaded_books_in_period := xs\<rparr>) = period_start u"
  by (simp add: period_start_def split: option.splits)

text \<open>
  One download call of a user with an active, unexpired basic subscription, inside the
  current period.
\<close>

lemma download_step:
  assumes "db uid = Some u" "subscription_status u = ''active''"
    "subscription_plan u = ''basic''" "subscription_end u = Some e" "\<not> e < n1"
    "period_start u = Some st" "\<not> n2 - st > thirty_days_ms"
  shows "ensureActiveAndWithinLimits db n1 n2 uid b ''download'' =
     (if b \<in> set (downloaded_books_in_period u) then (Ok, db)
      else if length (downloaded_books_in_period u) \<ge> 5
      then (Fail ''Download limit reached for this period.'', db)
      else (Ok, db(uid \<mapsto>
              u\<lparr>downloaded_books_in_period := downloaded_books_in_period u @ [b]\<rparr>)))"
  using assms
  by (simp add: ensureActiveAndWithinLimits_def resetPeriodIfNeeded_def getPlanLimits_def
      Let_def map_upd_triv)

lemma consume_all_downloads:
  assumes "db uid = Some u" "subscription_status u = ''active''"
    "subscription_plan u = ''basic''" "subscription_end u = Some e" "period_start u = Some st"
    "distinct (map content cs)"
    "set (map content cs) \<inter> set (downloaded_books_in_period u) = {}"
    "length (downloaded_books_in_period u) + length cs \<le> 5"
    "list_all (\<lambda>c. \<not> e < check_time c \<and> \<not> reset_time c - st > thirty_days_ms) cs"
  shows "consume_all db uid ''download'' cs =
     (replicate (length cs) Ok,
      db(uid \<mapsto> u\<lparr>downloaded_books_in_period :=
                      downloaded_books_in_period u @ map content cs\<rparr>))"
  using assms
proof (induction cs arbitrary: db u)
  case Nil
  then show ?case by (simp add: map_upd_triv)
next
  case (Cons c cs)
  let ?u' = "u\<lparr>downloaded_books_in_period := downloaded_books_in_period u @ [content c]\<rparr>"
  let ?db' = "db(uid \<mapsto> ?u')"
  from Cons.prems have step:
    "ensureActiveAndWithinLimits db (check_time c) (reset_time c) uid (content c) ''download'' =
       (Ok, ?db')"
    by (simp add: download_step [where e = e and st = st])
  have ps: "period_start ?u' = Some st"
    using Cons.prems(5) by (simp add: period_start_downloaded)
  have rest: "consume_all ?db' uid ''download'' cs =
     (replicate (length cs) Ok,
      ?db'(uid \<mapsto> ?u'\<lparr>downloaded_books_in_period :=
                      downloaded_books_in_period ?u' @ map content cs\<rparr>))"
    by (rule Cons.IH) (use Cons.prems ps in auto)
  show ?case
    by (simp add: step rest fun_eq_iff)
qed

text \<open>
  C2, as stated: every user with an active, unexpired basic subscription and a current
  period is authorized for 5 distinct downloads. The code counts the downloads already in
  the period: a user who has 5 of them is denied the next distinct one at once.
\<close>

theorem basic_download_quota_used_counterexample:
  "ensureActiveAndWithinLimits
     [1 \<mapsto> \<lparr>subscription_plan = ''basic'', subscription_status = ''active'',
      subscription_start = Some 0, subscription_end = Some 100, period_started_at = Some 0,
      read_books_in_period = [], downloaded_books_in_period = [1, 2, 3, 4, 5]\<rparr>]
     10 10 1 6 ''download'' =
   (Fail ''Download limit reached for this period.'',
     [1 \<mapsto> \<lparr>subscription_plan = ''basic'', subscription_status = ''active'',
      subscription_start = Some 0, subscription_end = Some 100, period_started_at = Some 0,
      read_books_in_period = [], downloaded_books_in_period = [1, 2, 3, 4, 5]\<rparr>])"
  by (simp add: ensureActiveAndWithinLimits_def resetPeriodIfNeeded_def period_start_def
      getPlanLimits_def thirty_days_ms_def)

text \<open>
  C2, amended: for every user with an active basic subscription whose list of downloads
  of the period is empty, 5 calls for distinct download ids, each before the end of the
  subscription and inside the period, are all authorized and leave exactly these 5 ids
  in the list; a call for a 6th distinct id is then denied with the download-limit
  message and stores nothing; and a call for any of the first 5 ids is then authorized
  and leaves the stored user, hence the list, as it is.
\<close>

theorem basic_download_quota_boundary:
  assumes "db userId = Some u" "subscription_status u = ''active''"
    "subscription_plan u = ''basic''" "subscription_end u = Some e" "period_start u = Some st"
    "downloaded_books_in_period u = []"
    "length cs = 5" "distinct (map content cs)"
    "list_all (\<lambda>c. \<not> e < check_time c \<and> \<not> reset_time c - st > thirty_days_ms) cs"
    "sixth \<notin> set (map content cs)" "\<not> e < t_check" "\<not> t_reset - st > thirty_days_ms"
    "again \<in> set (map content cs)" "\<not> e < t_check'" "\<not> t_reset' - st > thirty_days_ms"
  shows "consume_all db userId ''download'' cs =
           (replicate 5 Ok,
            db(userId \<mapsto> u\<lparr>downloaded_books_in_period := map content cs\<rparr>)) \<and>
         ensureActiveAndWithinLimits
           (db(userId \<mapsto> u\<lparr>downloaded_books_in_period := map content cs\<rparr>))
           t_check t_reset userId sixth ''download'' =
           (Fail ''Download limit reached for this period.'',
            db(userId \<mapsto> u\<lparr>downloaded_books_in_period := map content cs\<rparr>)) \<and>
         ensureActiveAndWithinLimits
           (db(userId \<mapsto> u\<lparr>downloaded_books_in_period := map content cs\<rparr>))
           t_check' t_reset' userId again ''download'' =
           (Ok, db(userId \<mapsto> u\<lparr>downloaded_books_in_period := map content cs\<rparr>))"
proof -
  let ?u5 = "u\<lparr>downloaded_books_in_period := map content cs\<rparr>"
  let ?db5 = "db(userId \<mapsto> ?u5)"
  have "consume_all db userId ''download'' cs =
     (replicate (length cs) Ok,
      db(userId \<mapsto> u\<lparr>downloaded_books_in_period :=
                      downloaded_books_in_period u @ map content cs\<rparr>))"
    by (rule consume_all_downloads [where e = e and st = st]) (use assms in auto)
  then have five: "consume_all db userId ''download'' cs = (replicate 5 Ok, ?db5)"
    using assms(6,7) by simp
  have ps: "period_start ?u5 = Some st"
    using assms(5) by (simp add: period_start_downloaded)
  have six: "ensureActiveAndWithinLimits ?db5 t_check t_reset userId sixth ''download'' =
       (Fail ''Download limit reached for this period.'', ?db5)"
    using assms ps by (subst download_step [where u = ?u5 and e = e and st = st]) auto
  have rep: "ensureActiveAndWithinLimits ?db5 t_check' t_reset' userId again ''download'' = (Ok, ?db5)"
    using assms ps by (subst download_step [where u = ?u5 and e = e and st = st]) auto
  from five six rep show ?thesis by simp
qed

theorem basic_download_quota_boundary_witness:
  "consume_all
     [1 \<mapsto> \<lparr>subscription_plan = ''basic'', subscription_status = ''active'',
      subscription_start = Some 0, subscription_end = Some 100, period_started_at = Some 0,
      read_books_in_period = [], downloaded_books_in_period = []\<rparr>]
     1 ''download''
     [\<lparr>check_time = 10, reset_time = 10, content = 1\<rparr>,
      \<lparr>check_time = 10, reset_time = 10, content = 2\<rparr>,
      \<lparr>check_time = 10, reset_time = 10, content = 3\<rparr>,
      \<lparr>check_time = 10, reset_time = 10, content = 4\<rparr>,
      \<lparr>check_time = 10, reset_time = 10, content = 5\<rparr>] =
   (replicate 5 Ok,
     [1 \<mapsto> \<lparr>subscription_plan = ''basic'', subscription_status = ''active'',
      subscription_start = Some 0, subscription_end = Some 100, period_started_at = Some 0,
      read_books_in_period = [], downloaded_books_in_period = [1, 2, 3, 4, 5]\<rparr>]) \<and>
   ensureActiveAndWithinLimits
     [1 \<mapsto> \<lparr>subscription_plan = ''basic'', subscription_status = ''active'',
      subscription_start = Some 0, subscription_end = Some 100, period_started_at = Some 0,
      read_books_in_period = [], downloaded_books_in_period = [1, 2, 3, 4, 5]\<rparr>]
     10 10 1 6 ''download'' =
   (Fail ''Download limit reached for this period.'',
     [1 \<mapsto> \<lparr>subscription_plan = ''basic'', subscription_status = ''active'',
      subscription_start = Some 0, subscription_end = Some 100, period_started_at = Some 0,
      read_books_in_period = [], downloaded_books_in_period = [1, 2, 3, 4, 5]\<rparr>]) \<and>
   ensureActiveAndWithinLimits
     [1 \<mapsto> \<lparr>subscription_plan = ''basic'', subscription_status = ''active'',
      subscription_start = Some 0, subscription_end = Some 100, period_started_at = Some 0,
      read_books_in_period = [], downloaded_books_in_period = [1, 2, 3, 4, 5]\<rparr>]
     10 10 1 3 ''download'' =
   (Ok,
     [1 \<mapsto> \<lparr>subscription_plan = ''basic'', subscription_status = ''active'',
      subscription_start = Some 0, subscription_end = Some 100, period_started_at = Some 0,
      read_books_in_period = [], downloaded_books_in_period = [1, 2, 3, 4, 5]\<rparr>])"
  using basic_download_quota_boundary [where db = "[1 \<mapsto> \<lparr>subscription_plan = ''basic'', subscription_status = ''active'',
      subscription_start = Some 0, subscription_end = Some 100, period_started_at = Some 0,
      read_books_in_period = [], downloaded_books_in_period = []\<rparr>]"
      and userId = 1 and e = 100 and st = 0 and sixth = 6 and again = 3
      and t_check = 10 and t_reset = 10 and t_check' = 10 and t_reset' = 10
      and u = "\<lparr>subscription_plan = ''basic'', subscription_status = ''active'',
      subscription_start = Some 0, subscription_end = Some 100, period_started_at = Some 0,
      read_books_in_period = [], downloaded_books_in_period = []\<rparr>"
      and cs = "[\<lparr>check_time = 10, reset_time = 10, content = 1\<rparr>,
      \<lparr>check_time = 10, reset_time = 10, content = 2\<rparr>,
      \<lparr>check_time = 10, reset_time = 10, content = 3\<rparr>,
      \<lparr>check_time = 10, reset_time = 10, content = 4\<rparr>,
      \<lparr>check_time = 10, reset_time = 10, content = 5\<rparr>]"]
  by (simp add: period_start_def thirty_days_ms_def)

text \<open>
  C3. A user with an active, unexpired basic subscription whose \<open>period_started_at\<close> is
  more than 30 days before the reading of the clock and who has 5 downloads in the
  period asks for a 6th distinct download: the call is authorized, and the stored user
  has \<open>period_started_at\<close> at that reading, no reads, and the new id as only download.
  The same call at a reading inside the period is denied with the download-limit
  message.
\<close>

theorem period_rollover_authorizes:
  assumes "db userId = Some u" "subscription_status u = ''active''"
    "subscription_plan u = ''basic''" "subscription_end u = Some e" "\<not> e < now_check"
    "period_started_at u = Some p" "now_reset - p > thirty_days_ms"
    "length (downloaded_books_in_period u) = 5" "bookId \<notin> set (downloaded_books_in_period u)"
  shows "ensureActiveAndWithinLimits db now_check now_reset userId bookId ''download'' =
           (Ok, db(userId \<mapsto> u\<lparr>period_started_at := Some now_reset,
                                  read_books_in_period := [],
                                  downloaded_books_in_period := [bookId]\<rparr>)) \<and>
         (\<not> earlier - p > thirty_days_ms \<longrightarrow>
            ensureActiveAndWithinLimits db now_check earlier userId bookId ''download'' =
            (Fail ''Download limit reached for this period.'', db))"
  using assms
  by (simp add: ensureActiveAndWithinLimits_def resetPeriodIfNeeded_def period_start_def
      getPlanLimits_def Let_def)

theorem period_rollover_authorizes_witness:
  "ensureActiveAndWithinLimits
     [1 \<mapsto> \<lparr>subscription_plan = ''basic'', subscription_status = ''active'',
      subscription_start = Some 0, subscription_end = Some 5000000000, period_started_at = Some 0,
      read_books_in_period = [7], downloaded_books_in_period = [1, 2, 3, 4, 5]\<rparr>]
     3000000000 3000000000 1 6 ''download'' =
   (Ok,
     [1 \<mapsto> \<lparr>subscription_plan = ''basic'', subscription_status = ''active'',
      subscription_start = Some 0, subscription_end = Some 5000000000, period_started_at = Some 3000000000,
      read_books_in_period = [], downloaded_books_in_period = [6]\<rparr>]) \<and>
   ensureActiveAndWithinLimits
     [1 \<mapsto> \<lparr>subscription_plan = ''basic'', subscription_status = ''active'',
      subscription_start = Some 0, subscription_end = Some 5000000000, period_started_at = Some 0,
      read_books_in_period = [7], downloaded_books_in_period = [1, 2, 3, 4, 5]\<rparr>]
     3000000000 1000 1 6 ''download'' =
   (Fail ''Download limit reached for this period.'',
     [1 \<mapsto> \<lparr>subscription_plan = ''basic'', subscription_status = ''active'',
      subscription_start = Some 0, subscription_end = Some 5000000000, period_started_at = Some 0,
      read_books_in_period = [7], downloaded_books_in_period = [1, 2, 3, 4, 5]\<rparr>])"
  using period_rollover_authorizes [where db = "[1 \<mapsto> \<lparr>subscription_plan = ''basic'', subscription_status = ''active'',
      subscription_start = Some 0, subscription_end = Some 5000000000, period_started_at = Some 0,
      read_books_in_period = [7], downloaded_books_in_period = [1, 2, 3, 4, 5]\<rparr>]"
      and userId = 1 and e = 5000000000 and p = 0 and bookId = 6
      and now_check = 3000000000 and now_reset = 3000000000 and earlier = 1000
      and u = "\<lparr>subscription_plan = ''basic'', subscription_status = ''active'',
      subscription_start = Some 0, subscription_end = Some 5000000000, period_started_at = Some 0,
      read_books_in_period = [7], downloaded_books_in_period = [1, 2, 3, 4, 5]\<rparr>"]
  by (simp add: thirty_days_ms_def)

text \<open>
  C5. A stored user whose status is \<open>active\<close> but whose \<open>subscription_end\<close> is unset or
  before the reading of the clock is denied with the message for an inactive or expired
  subscription, and the collection of users is returned as it was: the stored status is
  still \<open>active\<close>.
\<close>

theorem expired_subscription_denied:
  assumes "db userId = Some u" "subscription_status u = ''active''"
    "subscription_end u = None \<or> (\<exists>e. subscription_end u = Some e \<and> e < now_check)"
  shows "ensureActiveAndWithinLimits db now_check now_reset userId bookId type =
     (Fail ''Subscription inactive or expired. Please contact admin to renew.'', db)"
  using assms by (auto simp: ensureActiveAndWithinLimits_def)

theorem expired_subscription_denied_witness:
  "ensureActiveAndWithinLimits
     [1 \<mapsto> \<lparr>subscription_plan = ''basic'', subscription_status = ''active'',
      subscription_start = Some 0, subscription_end = Some 5, period_started_at = Some 0,
      read_books_in_period = [], downloaded_books_in_period = []\<rparr>]
     10 10 1 6 ''read'' =
   (Fail ''Subscription inactive or expired. Please contact admin to renew.'',
     [1 \<mapsto> \<lparr>subscription_plan = ''basic'', subscription_status = ''active'',
      subscription_start = Some 0, subscription_end = Some 5, period_started_at = Some 0,
      read_books_in_period = [], downloaded_books_in_period = []\<rparr>]) \<and>
   ensureActiveAndWithinLimits
     [1 \<mapsto> \<lparr>subscription_plan = ''basic'', subscription_status = ''active'',
      subscription_start = Some 0, subscription_end = None, period_started_at = Some 0,
      read_books_in_period = [], downloaded_books_in_period = []\<rparr>]
     10 10 1 6 ''download'' =
   (Fail ''Subscription inactive or expired. Please contact admin to renew.'',
     [1 \<mapsto> \<lparr>subscription_plan = ''basic'', subscription_status = ''active'',
      subscription_start = Some 0, subscription_end = None, period_started_at = Some 0,
      read_books_in_period = [], downloaded_books_in_period = []\<rparr>])"
  using expired_subscription_denied [where db = "[1 \<mapsto> \<lparr>subscription_plan = ''basic'', subscription_status = ''active'',
      subscription_start = Some 0, subscription_end = Some 5, period_started_at = Some 0,
      read_books_in_period = [], downloaded_books_in_period = []\<rparr>]"
      and userId = 1 and now_check = 10 and now_reset = 10 and bookId = 6 and type = "''read''"
      and u = "\<lparr>subscription_plan = ''basic'', subscription_status = ''active'',
      subscription_start = Some 0, subscription_end = Some 5, period_started_at = Some 0,
      read_books_in_period = [], downloaded_books_in_period = []\<rparr>"]
    expired_subscription_denied [where db = "[1 \<mapsto> \<lparr>subscription_plan = ''basic'', subscription_status = ''active'',
      subscription_start = Some 0, subscription_end = None, period_started_at = Some 0,
      read_books_in_period = [], downloaded_books_in_period = []\<rparr>]"
      and userId = 1 and now_check = 10 and now_reset = 10 and bookId = 6
      and type = "''download''"
      and u = "\<lparr>subscription_plan = ''basic'', subscription_status = ''active'',
      subscription_start = Some 0, subscription_end = None, period_started_at = Some 0,
      read_books_in_period = [], downloaded_books_in_period = []\<rparr>"]
  by simp

text \<open>
  C10. Whenever the gate does not answer \<open>Ok\<close>, the collection of users it returns is the
  one it was given, and the answer is one of the five denials (user not found,
  subscription inactive, no active plan, read limit, download limit); in particular a
  reset of the period that was due is not stored then. When the gate answers \<open>Ok\<close>, the
  stored user carries the \<open>period_started_at\<close> that the reset has produced.
\<close>

theorem denied_persists_nothing:
  assumes "ensureActiveAndWithinLimits db now_check now_reset userId bookId type = (g, db')"
  shows "(g \<noteq> Ok \<longrightarrow>
            db' = db \<and>
            g \<in> {Fail ''User not found'', Fail ''Subscription inactive or expired. Please contact admin to renew.'',
                  Fail ''No active plan. Please subscribe.'', Fail ''Read limit reached for this period.'', Fail ''Download limit reached for this period.''}) \<and>
         (g = Ok \<longrightarrow>
            (\<exists>u u'. db userId = Some u \<and> db' = db(userId \<mapsto> u') \<and>
               period_started_at u' = period_started_at (resetPeriodIfNeeded now_reset u)))"
  using assms unfolding ensureActiveAndWithinLimits_def Let_def
  by (auto split: option.splits if_splits)

theorem denied_persists_nothing_witness:
  "period_start \<lparr>subscription_plan = ''none'', subscription_status = ''active'',
      subscription_start = None, subscription_end = Some 100, period_started_at = None,
      read_books_in_period = [1], downloaded_books_in_period = [2]\<rparr> = None \<and>
   ensureActiveAndWithinLimits
     [1 \<mapsto> \<lparr>subscription_plan = ''none'', subscription_status = ''active'',
      subscription_start = None, subscription_end = Some 100, period_started_at = None,
      read_books_in_period = [1], downloaded_books_in_period = [2]\<rparr>]
     10 10 1 6 ''read'' =
   (Fail ''No active plan. Please subscribe.'',
     [1 \<mapsto> \<lparr>subscription_plan = ''none'', subscription_status = ''active'',
      subscription_start = None, subscription_end = Some 100, period_started_at = None,
      read_books_in_period = [1], downloaded_books_in_period = [2]\<rparr>])"
  using denied_persists_nothing [where db = "[1 \<mapsto> \<lparr>subscription_plan = ''none'', subscription_status = ''active'',
      subscription_start = None, subscription_end = Some 100, period_started_at = None,
      read_books_in_period = [1], downloaded_books_in_period = [2]\<rparr>]"
      and userId = 1 and now_check = 10 and now_reset = 10 and bookId = 6 and type = "''read''"
      and g = "Fail ''No active plan. Please subscribe.''"
      and db' = "[1 \<mapsto> \<lparr>subscription_plan = ''none'', subscription_status = ''active'',
      subscription_start = None, subscription_end = Some 100, period_started_at = None,
      read_books_in_period = [1], downloaded_books_in_period = [2]\<rparr>]"]
  by (simp add: ensureActiveAndWithinLimits_def resetPeriodIfNeeded_def period_start_def
      getPlanLimits_def)

section \<open>Properties of the subscription request queue\<close>

lemma findById_save_request:
  "findById reqs requestId = Some r \<Longrightarrow> req_id d = requestId \<Longrightarrow>
     findById (save_request reqs d) requestId = Some d"
  unfolding findById_def save_request_def
  by (induction reqs) (auto split: if_splits)

lemma findById_req_id: "findById reqs requestId = Some r \<Longrightarrow> req_id r = requestId"
  unfolding findById_def by (auto simp: find_Some_iff)

text \<open>
  C6. \<open>approve\<close> answers 404 \<open>not found\<close> when no request has the id, and 400
  \<open>already processed\<close> when the request found is processed; in both cases the requests
  and the users are returned as they were. After an approval that succeeded, a second
  approval of the same id is answered \<open>already processed\<close> and leaves the users, hence
  \<open>subscription_end\<close> and every other field, as the first approval left them.
\<close>

theorem approve_not_found_or_processed:
  "(findById reqs requestId = None \<longrightarrow>
      approve reqs db now now' requestId = ((404, JsonError ''not found''), reqs, db)) \<and>
   (\<forall>r. findById reqs requestId = Some r \<and> req_status r = ''processed'' \<longrightarrow>
      approve reqs db now now' requestId =
        ((400, JsonError ''already processed''), reqs, db)) \<and>
   (\<forall>reqs1 db1. approve reqs db now now' requestId = ((200, JsonOk), reqs1, db1) \<longrightarrow>
      approve reqs1 db1 later later' requestId =
        ((400, JsonError ''already processed''), reqs1, db1))"
proof (intro conjI allI impI)
  assume "findById reqs requestId = None"
  then show "approve reqs db now now' requestId = ((404, JsonError ''not found''), reqs, db)"
    by (simp add: approve_def)
next
  fix r assume "findById reqs requestId = Some r \<and> req_status r = ''processed''"
  then show "approve reqs db now now' requestId =
      ((400, JsonError ''already processed''), reqs, db)"
    by (simp add: approve_def)
next
  fix reqs1 db1
  assume a: "approve reqs db now now' requestId = ((200, JsonOk), reqs1, db1)"
  then obtain r where r: "findById reqs requestId = Some r"
    and s: "reqs1 = save_request reqs
              (r\<lparr>req_status := ''processed'', req_processed_at := Some now'\<rparr>)"
    unfolding approve_def Let_def by (auto split: option.splits if_splits)
  from r have "req_id r = requestId"
    by (rule findById_req_id)
  with r s have "findById reqs1 requestId =
      Some (r\<lparr>req_status := ''processed'', req_processed_at := Some now'\<rparr>)"
    by (simp add: findById_save_request)
  then show "approve reqs1 db1 later later' requestId =
      ((400, JsonError ''already processed''), reqs1, db1)"
    by (simp add: approve_def)
qed

theorem approve_not_found_or_processed_witness:
  "approve [] [7 \<mapsto> \<lparr>subscription_plan = ''none'', subscription_status = ''none'',
      subscription_start = None, subscription_end = None, period_started_at = None,
      read_books_in_period = [4], downloaded_books_in_period = [5]\<rparr>] 50 60 1 =
     ((404, JsonError ''not found''), [], [7 \<mapsto> \<lparr>subscription_plan = ''none'', subscription_status = ''none'',
      subscription_start = None, subscription_end = None, period_started_at = None,
      read_books_in_period = [4], downloaded_books_in_period = [5]\<rparr>]) \<and>
   approve [\<lparr>req_id = 1, req_user = 7, req_plan = ''basic'', req_status = ''pending'',
      req_processed_at = None, req_note = ''''\<rparr>] [7 \<mapsto> \<lparr>subscription_plan = ''none'', subscription_status = ''none'',
      subscription_start = None, subscription_end = None, period_started_at = None,
      read_books_in_period = [4], downloaded_books_in_period = [5]\<rparr>] 50 60 1 =
     ((200, JsonOk), [\<lparr>req_id = 1, req_user = 7, req_plan = ''basic'', req_status = ''processed'',
      req_processed_at = Some 60, req_note = ''''\<rparr>], [7 \<mapsto> \<lparr>subscription_plan = ''basic'', subscription_status = ''active'',
      subscription_start = Some 50, subscription_end = Some (50 + thirty_days_ms), period_started_at = Some 50,
      read_books_in_period = [], downloaded_books_in_period = []\<rparr>]) \<and>
   approve [\<lparr>req_id = 1, req_user = 7, req_plan = ''basic'', req_status = ''processed'',
      req_processed_at = Some 60, req_note = ''''\<rparr>] [7 \<mapsto> \<lparr>subscription_plan = ''basic'', subscription_status = ''active'',
      subscription_start = Some 50, subscription_end = Some (50 + thirty_days_ms), period_started_at = Some 50,
      read_books_in_period = [], downloaded_books_in_period = []\<rparr>] 70 80 1 =
     ((400, JsonError ''already processed''), [\<lparr>req_id = 1, req_user = 7, req_plan = ''basic'', req_status = ''processed'',
      req_processed_at = Some 60, req_note = ''''\<rparr>], [7 \<mapsto> \<lparr>subscription_plan = ''basic'', subscription_status = ''active'',
      subscription_start = Some 50, subscription_end = Some (50 + thirty_days_ms), period_started_at = Some 50,
      read_books_in_period = [], downloaded_books_in_period = []\<rparr>])"
proof -
  have first: "approve [\<lparr>req_id = 1, req_user = 7, req_plan = ''basic'', req_status = ''pending'',
      req_processed_at = None, req_note = ''''\<rparr>] [7 \<mapsto> \<lparr>subscription_plan = ''none'', subscription_status = ''none'',
      subscription_start = None, subscription_end = None, period_started_at = None,
      read_books_in_period = [4], downloaded_books_in_period = [5]\<rparr>] 50 60 1 =
     ((200, JsonOk), [\<lparr>req_id = 1, req_user = 7, req_plan = ''basic'', req_status = ''processed'',
      req_processed_at = Some 60, req_note = ''''\<rparr>], [7 \<mapsto> \<lparr>subscription_plan = ''basic'', subscription_status = ''active'',
      subscription_start = Some 50, subscription_end = Some (50 + thirty_days_ms), period_started_at = Some 50,
      read_books_in_period = [], downloaded_books_in_period = []\<rparr>])"
    by (simp add: approve_def findById_def save_request_def)
  from approve_not_found_or_processed [where reqs = "[]" and requestId = 1
      and db = "[7 \<mapsto> \<lparr>subscription_plan = ''none'', subscription_status = ''none'',
      subscription_start = None, subscription_end = None, period_started_at = None,
      read_books_in_period = [4], downloaded_books_in_period = [5]\<rparr>]" and now = 50 and now' = 60]
  have "approve [] [7 \<mapsto> \<lparr>subscription_plan = ''none'', subscription_status = ''none'',
      subscription_start = None, subscription_end = None, period_started_at = None,
      read_books_in_period = [4], downloaded_books_in_period = [5]\<rparr>] 50 60 1 =
     ((404, JsonError ''not found''), [], [7 \<mapsto> \<lparr>subscription_plan = ''none'', subscription_status = ''none'',
      subscription_start = None, subscription_end = None, period_started_at = None,
      read_books_in_period = [4], downloaded_books_in_period = [5]\<rparr>])"
    by (simp add: findById_def)
  moreover from first approve_not_found_or_processed [where reqs = "[\<lparr>req_id = 1, req_user = 7, req_plan = ''basic'', req_status = ''pending'',
      req_processed_at = None, req_note = ''''\<rparr>]" and requestId = 1
      and db = "[7 \<mapsto> \<lparr>subscription_plan = ''none'', subscription_status = ''none'',
      subscription_start = None, subscription_end = None, period_started_at = None,
      read_books_in_period = [4], downloaded_books_in_period = [5]\<rparr>]" and now = 50 and now' = 60 and later = 70 and later' = 80]
  have "approve [\<lparr>req_id = 1, req_user = 7, req_plan = ''basic'', req_status = ''processed'',
      req_processed_at = Some 60, req_note = ''''\<rparr>] [7 \<mapsto> \<lparr>subscription_plan = ''basic'', subscription_status = ''active'',
      subscription_start = Some 50, subscription_end = Some (50 + thirty_days_ms), period_started_at = Some 50,
      read_books_in_period = [], downloaded_books_in_period = []\<rparr>] 70 80 1 =
     ((400, JsonError ''already processed''), [\<lparr>req_id = 1, req_user = 7, req_plan = ''basic'', req_status = ''processed'',
      req_processed_at = Some 60, req_note = ''''\<rparr>], [7 \<mapsto> \<lparr>subscription_plan = ''basic'', subscription_status = ''active'',
      subscription_start = Some 50, subscription_end = Some (50 + thirty_days_ms), period_started_at = Some 50,
      read_books_in_period = [], downloaded_books_in_period = []\<rparr>])"
    by blast
  ultimately show ?thesis using first by simp
qed

lemma pending_for_save_request:
  "req_status d = ''processed'' \<Longrightarrow>
   length (pending_for (save_request reqs d) u p) \<le> length (pending_for reqs u p)"
  unfolding pending_for_def save_request_def
  by (induction reqs) auto

lemma findOnePending_None: "findOnePending reqs u p = None \<longleftrightarrow> pending_for reqs u p = []"
  unfolding findOnePending_def pending_for_def
  by (auto simp: find_None_iff filter_empty_conv)

lemma pending_for_subscribe_request:
  assumes "subscribe_request reqs newId userId plan note = (resp, reqs')"
    "length (pending_for reqs u p) \<le> 1"
  shows "length (pending_for reqs' u p) \<le> 1"
  using assms
  unfolding subscribe_request_def create_request_def Let_def
  by (auto split: option.splits if_splits simp: findOnePending_None)
     (auto simp: pending_for_def)

lemma pending_for_approve:
  assumes "approve reqs db now now' requestId = (resp, reqs', db')"
    "length (pending_for reqs u p) \<le> 1"
  shows "length (pending_for reqs' u p) \<le> 1"
proof -
  have "length (pending_for reqs' u p) \<le> length (pending_for reqs u p)"
    using assms(1) unfolding approve_def Let_def
    by (auto split: option.splits if_splits intro!: pending_for_save_request)
  with assms(2) show ?thesis by simp
qed

lemma pending_for_mark_processed:
  assumes "mark_processed reqs now requestId = (resp, reqs')"
    "length (pending_for reqs u p) \<le> 1"
  shows "length (pending_for reqs' u p) \<le> 1"
proof -
  have "length (pending_for reqs' u p) \<le> length (pending_for reqs u p)"
    using assms(1) unfolding mark_processed_def
    by (auto split: option.splits if_splits intro!: pending_for_save_request)
  with assms(2) show ?thesis by simp
qed

lemma pending_for_step:
  assumes "length (pending_for (fst s) u p) \<le> 1"
  shows "length (pending_for (fst (step s a)) u p) \<le> 1"
proof (cases s)
  case (Pair reqs db)
  show ?thesis
  proof (cases a)
    case (Submit newId userId plan nt)
    obtain resp reqs' where eq: "subscribe_request reqs newId userId plan nt = (resp, reqs')"
      by (cases "subscribe_request reqs newId userId plan nt")
    from pending_for_subscribe_request [OF eq, of u p] assms Pair Submit eq show ?thesis
      by simp
  next
    case (Approve now now' requestId)
    obtain resp reqs' db' where eq: "approve reqs db now now' requestId = (resp, reqs', db')"
      by (cases "approve reqs db now now' requestId")
    from pending_for_approve [OF eq, of u p] assms Pair Approve eq show ?thesis
      by simp
  next
    case (MarkProcessed now requestId)
    obtain resp reqs' where eq: "mark_processed reqs now requestId = (resp, reqs')"
      by (cases "mark_processed reqs now requestId")
    from pending_for_mark_processed [OF eq, of u p] assms Pair MarkProcessed eq show ?thesis
      by simp
  qed
qed

lemma pending_for_foldl_step:
  "length (pending_for (fst s) u p) \<le> 1 \<Longrightarrow>
   length (pending_for (fst (foldl step s actions)) u p) \<le> 1"
proof (induction actions arbitrary: s)
  case Nil
  then show ?case by simp
next
  case (Cons a actions)
  from Cons.prems have "length (pending_for (fst (step s a)) u p) \<le> 1"
    by (rule pending_for_step)
  then have "length (pending_for (fst (foldl step (step s a) actions)) u p) \<le> 1"
    by (rule Cons.IH)
  then show ?case by simp
qed

lemma findOnePending_created:
  assumes "findOnePending reqs userId plan = None"
    "req_user d = userId" "req_plan d = plan" "req_status d = ''pending''"
  shows "findOnePending (reqs @ [d]) userId plan = Some d"
  using assms unfolding findOnePending_def
  by (induction reqs) (auto split: if_splits)

text \<open>
  C7. After any history of calls of the three handlers from the empty collection, there
  is at most one pending request for each user and plan. When \<open>subscribe_request\<close> is
  called for a valid plan while a pending request of that user for that plan is stored,
  it answers 200 with the \<open>_id\<close> of that request and leaves the collection as it was; so a
  second call right after one that created a request answers with the same \<open>_id\<close> and
  adds no document.
\<close>

theorem one_pending_request_per_user_plan:
  "length (pending_for (fst (run db actions)) u p) \<le> 1 \<and>
   (\<forall>r. (plan = ''basic'' \<or> plan = ''premium'') \<and>
        findOnePending reqs userId plan = Some r \<longrightarrow>
        subscribe_request reqs newId userId (Some plan) body_note =
          ((200, JsonOkPendingId (req_id r)), reqs)) \<and>
   (\<forall>created reqs1.
        subscribe_request reqs newId userId (Some plan) body_note = ((201, JsonOkId created), reqs1)
        \<longrightarrow>
        subscribe_request reqs1 newId' userId (Some plan) body_note' =
          ((200, JsonOkPendingId created), reqs1))"
proof (intro conjI allI impI)
  show "length (pending_for (fst (run db actions)) u p) \<le> 1"
    unfolding run_def by (rule pending_for_foldl_step) (simp add: pending_for_def)
next
  fix r
  assume "(plan = ''basic'' \<or> plan = ''premium'') \<and> findOnePending reqs userId plan = Some r"
  then show "subscribe_request reqs newId userId (Some plan) body_note =
      ((200, JsonOkPendingId (req_id r)), reqs)"
    by (auto simp: subscribe_request_def)
next
  fix created reqs1
  assume a: "subscribe_request reqs newId userId (Some plan) body_note =
      ((201, JsonOkId created), reqs1)"
  then have valid: "plan = ''basic'' \<or> plan = ''premium''"
    and none: "findOnePending reqs userId plan = None"
    unfolding subscribe_request_def by (auto split: option.splits if_splits)
  from a valid none obtain d where d: "reqs1 = reqs @ [d]" "req_id d = created"
    "req_user d = userId" "req_plan d = plan" "req_status d = ''pending''"
    unfolding subscribe_request_def create_request_def Let_def
    by (auto split: option.splits if_splits)
  from none d have "findOnePending reqs1 userId plan = Some d"
    by (simp add: findOnePending_created)
  with valid d show "subscribe_request reqs1 newId' userId (Some plan) body_note' =
      ((200, JsonOkPendingId created), reqs1)"
    by (auto simp: subscribe_request_def)
qed

theorem one_pending_request_per_user_plan_witness:
  "subscribe_request [] 1 7 (Some ''basic'') None = ((201, JsonOkId 1), [\<lparr>req_id = 1, req_user = 7, req_plan = ''basic'', req_status = ''pending'',
      req_processed_at = None, req_note = ''''\<rparr>]) \<and>
   subscribe_request [\<lparr>req_id = 1, req_user = 7, req_plan = ''basic'', req_status = ''pending'',
      req_processed_at = None, req_note = ''''\<rparr>] 2 7 (Some ''basic'') (Some ''again'') =
     ((200, JsonOkPendingId 1), [\<lparr>req_id = 1, req_user = 7, req_plan = ''basic'', req_status = ''pending'',
      req_processed_at = None, req_note = ''''\<rparr>]) \<and>
   length (pending_for
     (fst (run Map.empty [Submit 1 7 (Some ''basic'') None,
                          Submit 2 7 (Some ''basic'') (Some ''again'')])) 7 ''basic'') \<le> 1"
proof -
  have first: "subscribe_request [] 1 7 (Some ''basic'') None = ((201, JsonOkId 1), [\<lparr>req_id = 1, req_user = 7, req_plan = ''basic'', req_status = ''pending'',
      req_processed_at = None, req_note = ''''\<rparr>])"
    by (simp add: subscribe_request_def create_request_def findById_def findOnePending_def
        Let_def)
  from first one_pending_request_per_user_plan [where reqs = "[]" and newId = 1
      and userId = 7 and plan = "''basic''" and body_note = None and newId' = 2
      and body_note' = "Some ''again''" and db = Map.empty and u = 7 and p = "''basic''"
      and actions = "[Submit 1 7 (Some ''basic'') None,
                      Submit 2 7 (Some ''basic'') (Some ''again'')]"]
  show ?thesis by blast
qed

end
